theory Spec2Isabelle
  imports Main
begin

section \<open>JavaScript values\<close>

text \<open>
  The gateway of \<^verbatim>\<open>src/index.js\<close> handles JSON: request bodies, upstream responses and
  cached values. A value of the program is one of the following. \<^verbatim>\<open>Undefined\<close> is what
  reading an absent property gives. A number is kept as the text JavaScript prints for
  it (\<^verbatim>\<open>10\<close>, \<^verbatim>\<open>1.5\<close>, \<^verbatim>\<open>1e+21\<close>): the text identifies the number, and \<^verbatim>\<open>0\<close> and \<^verbatim>\<open>-0\<close>,
  which are equal, both print as \<^verbatim>\<open>0\<close>. An object is the list of its members as
  \<^verbatim>\<open>JSON.parse\<close> made them, each name once. The strings of the model are ASCII texts:
  a character is one code unit, which is what \<^verbatim>\<open>length\<close> counts.
\<close>

datatype js =
    Undefined
  | Null
  | Bool bool
  | Num string
  | Str string
  | Arr "js list"
  | Obj "(string \<times> js) list"

text \<open>
  The truthiness test of \<^verbatim>\<open>if (x)\<close>, \<^verbatim>\<open>!x\<close> and \<^verbatim>\<open>x && y\<close>. (JSON has no \<^verbatim>\<open>NaN\<close>.)
\<close>

fun truthy :: "js \<Rightarrow> bool" where
  "truthy Undefined = False"
| "truthy Null = False"
| "truthy (Bool b) = b"
| "truthy (Num n) = (n \<noteq> ''0'')"
| "truthy (Str s) = (s \<noteq> [])"
| "truthy (Arr xs) = True"
| "truthy (Obj kvs) = True"

text \<open>
  \<^verbatim>\<open>a === b\<close>. Primitives are compared by value. Arrays and objects are compared by
  identity; every array or object the program compares was parsed from a different
  request or response, so two of them are never the same object.
\<close>

fun strict_eq :: "js \<Rightarrow> js \<Rightarrow> bool" where
  "strict_eq Undefined Undefined = True"
| "strict_eq Null Null = True"
| "strict_eq (Bool a) (Bool b) = (a = b)"
| "strict_eq (Num a) (Num b) = (a = b)"
| "strict_eq (Str a) (Str b) = (a = b)"
| "strict_eq _ _ = False"

text \<open>Decimal digits of a natural number: the text of a length.\<close>

function show_nat :: "nat \<Rightarrow> string" where
  "show_nat n =
     (if n < 10 then [''0123456789'' ! n]
      else show_nat (n div 10) @ [''0123456789'' ! (n mod 10)])"
  by pat_completeness auto
termination
  by (relation "measure id") auto

declare show_nat.simps [simp del]

text \<open>
  Property access \<^verbatim>\<open>v.k\<close> for the property names the program reads
  (\<^verbatim>\<open>action\<close>, \<^verbatim>\<open>hash\<close>, \<^verbatim>\<open>hashes\<close>, \<^verbatim>\<open>work\<close>, \<^verbatim>\<open>representatives\<close>, \<^verbatim>\<open>length\<close>). An object
  gives the member of that name, a string and an array have a \<^verbatim>\<open>length\<close>. The program
  guards every access to a value that may be \<^verbatim>\<open>null\<close> or \<^verbatim>\<open>undefined\<close> with a
  truthiness test (\<^verbatim>\<open>x && x.k\<close>), so the last equation is never reached on those.
\<close>

fun get_prop :: "js \<Rightarrow> string \<Rightarrow> js" where
  "get_prop (Obj kvs) k = (case map_of kvs k of Some v \<Rightarrow> v | None \<Rightarrow> Undefined)"
| "get_prop (Str s) k = (if k = ''length'' then Num (show_nat (length s)) else Undefined)"
| "get_prop (Arr xs) k = (if k = ''length'' then Num (show_nat (length xs)) else Undefined)"
| "get_prop _ k = Undefined"

text \<open>
  A computation that may throw: \<^verbatim>\<open>Inl\<close> carries the text of the error
  (\<^verbatim>\<open>err.toString()\<close>), \<^verbatim>\<open>Inr\<close> the value.
\<close>

type_synonym 'a throws = "string + 'a"

text \<open>\<^verbatim>\<open>xs.join(',')\<close> on the converted elements; the first conversion that throws ends it.\<close>

fun join_comma :: "string throws list \<Rightarrow> string throws" where
  "join_comma [] = Inr []"
| "join_comma [r] = r"
| "join_comma (r # q # rs) =
     (case r of
        Inl err \<Rightarrow> Inl err
      | Inr s \<Rightarrow> (case join_comma (q # rs) of Inl err \<Rightarrow> Inl err | Inr t \<Rightarrow> Inr (s @ '','' @ t)))"

text \<open>
  Conversion to a string, as the template literal \<^verbatim>\<open>`${v}`\<close> and \<^verbatim>\<open>JSON.parse(v)\<close> do
  it. An array joins its elements with commas (\<^verbatim>\<open>null\<close> and \<^verbatim>\<open>undefined\<close> elements are
  empty). An object parsed from JSON is \<^verbatim>\<open>[object Object]\<close> when it inherits
  \<^verbatim>\<open>toString\<close>; when it has a member of that name, the member is not a function, and
  neither \<^verbatim>\<open>valueOf\<close> (a member, or the inherited one that returns the object) gives a
  primitive: the conversion throws a \<^verbatim>\<open>TypeError\<close>.
\<close>

fun to_str :: "js \<Rightarrow> string throws" where
  "to_str Undefined = Inr ''undefined''"
| "to_str Null = Inr ''null''"
| "to_str (Bool b) = Inr (if b then ''true'' else ''false'')"
| "to_str (Num n) = Inr n"
| "to_str (Str s) = Inr s"
| "to_str (Arr xs) =
     join_comma (map (\<lambda>x. if x = Undefined \<or> x = Null then Inr [] else to_str x) xs)"
| "to_str (Obj kvs) =
     (if ''toString'' \<in> fst ` set kvs
      then Inl ''TypeError: Cannot convert object to primitive value''
      else Inr ''[object Object]'')"

text \<open>\<^verbatim>\<open>xs.indexOf(v)\<close>: the first index whose element is \<^verbatim>\<open>=== v\<close>, or \<^verbatim>\<open>-1\<close>.\<close>

fun indexOf_from :: "int \<Rightarrow> js list \<Rightarrow> js \<Rightarrow> int" where
  "indexOf_from i [] v = -1"
| "indexOf_from i (x # xs) v = (if strict_eq x v then i else indexOf_from (i + 1) xs v)"

definition indexOf :: "js list \<Rightarrow> js \<Rightarrow> int" where
  "indexOf xs v = indexOf_from 0 xs v"

section \<open>Configuration\<close>

text \<open>
  The settings read once at start-up (lines 6 to 12, and the proof-of-work service's
  address and credentials read at lines 107 to 111). Lines 13 to 15, which once declared
  \<^verbatim>\<open>redisCacheUrl\<close>, \<^verbatim>\<open>redisCacheTime\<close> and \<^verbatim>\<open>memoryCacheLength\<close>, are comments: the file
  declares none of the three names, and the expressions that read them (lines 160, 168
  and 178) throw a \<^verbatim>\<open>ReferenceError\<close> when they are evaluated.
\<close>

record config =
  nanoNodeUrl :: string
  nanoWorkNodeUrl :: string
  useDPoW :: bool
  useRedisCache :: bool
  dpowUrl :: string
  dpowUser :: js
  dpowKey :: js

section \<open>The cache\<close>

text \<open>
  \<^verbatim>\<open>workCache\<close> (line 22) is an array of \<^verbatim>\<open>{ hash, work }\<close> objects, oldest first. It is
  the only state of the process.
\<close>

record entry =
  hash :: js
  work :: js

type_synonym cache = "entry list"

text \<open>
  The optional third argument \<^verbatim>\<open>time\<close> of \<^verbatim>\<open>putCache\<close>, in seconds: \<^verbatim>\<open>None\<close> when the
  call gives two arguments. \<^verbatim>\<open>if (time)\<close> tests its truthiness, and the number \<^verbatim>\<open>0\<close> is
  falsy.
\<close>

definition time_given :: "nat option \<Rightarrow> bool" where
  "time_given time = (case time of None \<Rightarrow> False | Some t \<Rightarrow> t \<noteq> 0)"

text \<open>Lines 171 to 174: the work of the first entry whose hash is the key, or \<^verbatim>\<open>null\<close>.\<close>

definition getCache :: "cache \<Rightarrow> js \<Rightarrow> js" where
  "getCache workCache h =
     (case find (\<lambda>w. strict_eq (hash w) h) workCache of
        Some existingHash \<Rightarrow> work existingHash
      | None \<Rightarrow> Null)"

text \<open>
  Lines 175 to 179. With a time the function returns at once. Without one the entry is
  pushed at the end (line 177), and the test of line 178 then reads
  \<^verbatim>\<open>memoryCacheLength\<close>, which is not declared: the call throws after the push, and
  \<^verbatim>\<open>workCache.shift()\<close> is never reached. The result is the array afterwards and the
  error thrown, if any.
\<close>

definition putCache :: "cache \<Rightarrow> js \<Rightarrow> js \<Rightarrow> nat option \<Rightarrow> cache \<times> string option" where
  "putCache workCache h w time =
     (if time_given time then (workCache, None)
      else (workCache @ [\<lparr>hash = h, work = w\<rparr>],
            Some ''ReferenceError: memoryCacheLength is not defined''))"

text \<open>
  Lines 22 and 158 to 180, the start of the process. With \<^verbatim>\<open>useRedisCache\<close> the module
  evaluates \<^verbatim>\<open>createClient({ host: redisCacheUrl })\<close> (line 160), which throws while the
  module is loading: the process ends before it serves a request, and lines 166 to 169
  are never reached. Otherwise \<^verbatim>\<open>getCache\<close> and \<^verbatim>\<open>putCache\<close> are bound to the two
  functions above and the process starts with the empty array. (Line 200 then fetches
  the recommended representatives once; its \<^verbatim>\<open>putCache\<close> gives a time and stores
  nothing.)
\<close>

definition start :: "config \<Rightarrow> cache throws" where
  "start cfg =
     (if useRedisCache cfg then Inl ''ReferenceError: redisCacheUrl is not defined''
      else Inr [])"

section \<open>The outside world and what a handler does\<close>

text \<open>
  What one run of a handler meets outside the process: the HTTP client \<^verbatim>\<open>request\<close>
  (method, uri and JSON body; it resolves to the parsed response or rejects with an
  error), the three functions of the \<^verbatim>\<open>./timestamps\<close> module (not part of the file;
  they resolve or reject as well), \<^verbatim>\<open>JSON.stringify\<close> and \<^verbatim>\<open>JSON.parse\<close>.
\<close>

record world =
  request :: "string \<Rightarrow> string \<Rightarrow> js \<Rightarrow> js throws"
  mapAccountHistory :: "js \<Rightarrow> js throws"
  mapBlocksInfo :: "js \<Rightarrow> js \<Rightarrow> js throws"
  mapPending :: "js \<Rightarrow> js throws"
  stringify :: "js \<Rightarrow> string"
  parse :: "string \<Rightarrow> js throws"

text \<open>
  The effects of a run, in the order they happen: the calls of \<^verbatim>\<open>getCache\<close>, of
  \<^verbatim>\<open>putCache\<close>, of \<^verbatim>\<open>request\<close> and of the timestamp functions.
\<close>

datatype event =
    CacheGet js
  | CachePut js js "nat option"
  | Request string string js
  | MapAccountHistory js
  | MapBlocksInfo js js
  | MapPending js

text \<open>An HTTP response: the status and the JSON body (\<^verbatim>\<open>res.json\<close> sends status 200).\<close>

datatype response = Response nat js

text \<open>
  The result of a run: the cache afterwards, the effects, and the response sent to the
  client; \<^verbatim>\<open>None\<close> when the handler ends without sending one. (The handlers are
  \<^verbatim>\<open>async\<close> functions: an exception outside a promise chain with a \<^verbatim>\<open>catch\<close> rejects the
  handler's promise, which the framework does not look at.)
\<close>

record outcome =
  final :: cache
  trace :: "event list"
  reply :: "response option"

text \<open>
  A request: the parsed JSON body (\<^verbatim>\<open>express.json()\<close> gives an object or an array) and
  the query parameter \<^verbatim>\<open>node\<close>, a string when present.
\<close>

record http_request =
  body :: js
  node :: "string option"

section \<open>Recommended representatives\<close>

text \<open>
  Lines 182 to 192: fetch the verified accounts and store them for 45 minutes. The
  result is the promise's: the fetched value, or the rejection.
\<close>

definition getRecommendedReps :: "world \<Rightarrow> cache \<Rightarrow> cache \<times> event list \<times> js throws" where
  "getRecommendedReps w c =
     (let uri = ''https://mynano.ninja/api/accounts/verified'' in
      case request w ''get'' uri Undefined of
        Inl err \<Rightarrow> (c, [Request ''get'' uri Undefined], Inl err)
      | Inr res \<Rightarrow>
          (case putCache c (Str ''recommended-reps'') (Str (stringify w res)) (Some (45 * 60)) of
             (c', thrown) \<Rightarrow>
               (c',
                [Request ''get'' uri Undefined,
                 CachePut (Str ''recommended-reps'') (Str (stringify w res)) (Some (45 * 60))],
                case thrown of Some err \<Rightarrow> Inl err | None \<Rightarrow> Inr res)))"

text \<open>
  Lines 34 to 41. On a hit the parsed value is sent (an exception of \<^verbatim>\<open>JSON.parse\<close>,
  which first converts its argument to a string, rejects the handler's promise and
  nothing is sent). On a miss the handler awaits \<^verbatim>\<open>getRecommendedReps()\<close> and returns its
  value to the framework, which ignores the value a handler returns: no method of
  \<^verbatim>\<open>res\<close> is called.
\<close>

definition recommended_representatives :: "world \<Rightarrow> cache \<Rightarrow> outcome" where
  "recommended_representatives w c =
     (let reps = getCache c (Str ''recommended-reps'') in
      if truthy reps
      then \<lparr>final = c, trace = [CacheGet (Str ''recommended-reps'')],
            reply = (case to_str reps of
                       Inl err \<Rightarrow> None
                     | Inr text \<Rightarrow>
                         (case parse w text of
                            Inr v \<Rightarrow> Some (Response 200 v)
                          | Inl err \<Rightarrow> None))\<rparr>
      else
        (case getRecommendedReps w c of
           (c', evs, r) \<Rightarrow>
             \<lparr>final = c', trace = CacheGet (Str ''recommended-reps'') # evs, reply = None\<rparr>))"

section \<open>The node API\<close>

definition allowedActions :: "js list" where
  "allowedActions =
     [Str ''account_history'', Str ''account_info'', Str ''accounts_frontiers'',
      Str ''accounts_balances'', Str ''accounts_pending'', Str ''block'', Str ''blocks'',
      Str ''block_count'', Str ''blocks_info'', Str ''delegators_count'', Str ''pending'',
      Str ''process'', Str ''representatives_online'', Str ''validate_account_number'',
      Str ''work_generate'']"

definition repCacheKey :: js where
  "repCacheKey = Str ''online-representatives''"

text \<open>Lines 83 and 92: \<^verbatim>\<open>cached && cached.length\<close>.\<close>

definition cache_hit :: "js \<Rightarrow> bool" where
  "cache_hit cached = (truthy cached \<and> truthy (get_prop cached ''length''))"

text \<open>
  Lines 137 to 146, inside the \<^verbatim>\<open>then\<close> of the upstream request: the three tests on the
  action, one after the other; a rejection of a mapping function ends in the \<^verbatim>\<open>catch\<close>.
  The result is the calls made and the value to send, or the error.
\<close>

definition add_timestamps :: "world \<Rightarrow> js \<Rightarrow> js \<Rightarrow> event list \<times> js throws" where
  "add_timestamps w reqBody proxyRes =
     (let action = get_prop reqBody ''action'';
          s1 = (if strict_eq action (Str ''account_history'')
                then ([MapAccountHistory proxyRes], mapAccountHistory w proxyRes)
                else ([], Inr proxyRes))
      in case snd s1 of
           Inl err \<Rightarrow> (fst s1, Inl err)
         | Inr p1 \<Rightarrow>
             let s2 = (if strict_eq action (Str ''blocks_info'')
                       then ([MapBlocksInfo (get_prop reqBody ''hashes'') p1],
                             mapBlocksInfo w (get_prop reqBody ''hashes'') p1)
                       else ([], Inr p1))
             in case snd s2 of
                  Inl err \<Rightarrow> (fst s1 @ fst s2, Inl err)
                | Inr p2 \<Rightarrow>
                    let s3 = (if strict_eq action (Str ''pending'')
                              then ([MapPending p2], mapPending w p2)
                              else ([], Inr p2))
                    in (fst s1 @ fst s2 @ fst s3, snd s3))"

text \<open>
  Lines 125 to 149: the request to the node, the write-back under
  \<^verbatim>\<open>proxyRes && !nodeOverride\<close>, the timestamps, the response. An error anywhere in the
  chain (the request's rejection, an exception of \<^verbatim>\<open>putCache\<close>, a timestamp function's
  rejection) skips the rest and is sent by the \<^verbatim>\<open>catch\<close> as status 500 with the error's
  text; what \<^verbatim>\<open>putCache\<close> did to the array before it stays.
\<close>

definition send_to_node ::
  "world \<Rightarrow> cache \<Rightarrow> js \<Rightarrow> bool \<Rightarrow> bool \<Rightarrow> bool \<Rightarrow> string \<Rightarrow> outcome" where
  "send_to_node w c reqBody workRequest representativeRequest nodeOverride nodeUrl =
     (case request w ''post'' nodeUrl reqBody of
        Inl err \<Rightarrow>
          \<lparr>final = c, trace = [Request ''post'' nodeUrl reqBody],
           reply = Some (Response 500 (Str err))\<rparr>
      | Inr proxyRes \<Rightarrow>
          let cacheable = (truthy proxyRes \<and> \<not> nodeOverride);
              put1 = (if cacheable \<and> workRequest \<and> truthy (get_prop proxyRes ''work'')
                      then (putCache c (get_prop reqBody ''hash'') (get_prop proxyRes ''work'') None,
                            [CachePut (get_prop reqBody ''hash'') (get_prop proxyRes ''work'') None])
                      else ((c, None), []))
          in case snd (fst put1) of
               Some err \<Rightarrow>
                 \<lparr>final = fst (fst put1),
                  trace = Request ''post'' nodeUrl reqBody # snd put1,
                  reply = Some (Response 500 (Str err))\<rparr>
             | None \<Rightarrow>
                 let put2 = (if cacheable \<and> representativeRequest
                                \<and> truthy (get_prop proxyRes ''representatives'')
                             then (putCache (fst (fst put1)) repCacheKey
                                     (Str (stringify w proxyRes)) (Some (5 * 60)),
                                   [CachePut repCacheKey (Str (stringify w proxyRes))
                                      (Some (5 * 60))])
                             else ((fst (fst put1), None), []))
                 in case snd (fst put2) of
                      Some err \<Rightarrow>
                        \<lparr>final = fst (fst put2),
                         trace = Request ''post'' nodeUrl reqBody # snd put1 @ snd put2,
                         reply = Some (Response 500 (Str err))\<rparr>
                    | None \<Rightarrow>
                        let ts = add_timestamps w reqBody proxyRes
                        in \<lparr>final = fst (fst put2),
                            trace = Request ''post'' nodeUrl reqBody # snd put1 @ snd put2 @ fst ts,
                            reply = Some (case snd ts of
                                            Inl err \<Rightarrow> Response 500 (Str err)
                                          | Inr res \<Rightarrow> Response 200 res)\<rparr>)"

text \<open>
  Lines 104 to 123: the request to the proof-of-work service and its \<^verbatim>\<open>then\<close> and
  \<^verbatim>\<open>catch\<close>.
\<close>

definition dpow_body :: "config \<Rightarrow> js \<Rightarrow> js" where
  "dpow_body cfg reqBody =
     Obj [(''user'', dpowUser cfg), (''api_key'', dpowKey cfg),
          (''hash'', get_prop reqBody ''hash''), (''timeout'', Num ''10'')]"

definition send_to_dpow :: "config \<Rightarrow> world \<Rightarrow> cache \<Rightarrow> js \<Rightarrow> outcome" where
  "send_to_dpow cfg w c reqBody =
     (case request w ''post'' (dpowUrl cfg) (dpow_body cfg reqBody) of
        Inl err \<Rightarrow>
          \<lparr>final = c, trace = [Request ''post'' (dpowUrl cfg) (dpow_body cfg reqBody)],
           reply = Some (Response 500 (Str err))\<rparr>
      | Inr dpowRes \<Rightarrow>
          if truthy dpowRes \<and> truthy (get_prop dpowRes ''work'')
          then
            (case putCache c (get_prop reqBody ''hash'') (get_prop dpowRes ''work'') None of
               (c', thrown) \<Rightarrow>
                 \<lparr>final = c',
                  trace = [Request ''post'' (dpowUrl cfg) (dpow_body cfg reqBody),
                           CachePut (get_prop reqBody ''hash'') (get_prop dpowRes ''work'') None],
                  reply = Some (case thrown of
                                  Some err \<Rightarrow> Response 500 (Str err)
                                | None \<Rightarrow> Response 200 dpowRes)\<rparr>)
          else \<lparr>final = c, trace = [Request ''post'' (dpowUrl cfg) (dpow_body cfg reqBody)],
                reply = Some (Response 200 dpowRes)\<rparr>)"

text \<open>Lines 72 to 76: \<^verbatim>\<open>req.query.node && req.query.node.length > 4\<close>.\<close>

definition nodeOverride_of :: "http_request \<Rightarrow> bool" where
  "nodeOverride_of req =
     (case node req of None \<Rightarrow> False | Some n \<Rightarrow> truthy (Str n) \<and> length n > 4)"

definition nodeUrl_of :: "config \<Rightarrow> http_request \<Rightarrow> string" where
  "nodeUrl_of cfg req =
     (case node req of
        None \<Rightarrow> nanoNodeUrl cfg
      | Some n \<Rightarrow> if truthy (Str n) \<and> length n > 4 then n else nanoNodeUrl cfg)"

text \<open>
  Lines 78 to 87. The stage either answers (\<^verbatim>\<open>Inl\<close>: the handler returns) or goes on
  with the flag \<^verbatim>\<open>workRequest\<close> and the cache reads made.
\<close>

definition work_stage :: "cache \<Rightarrow> http_request \<Rightarrow> outcome + bool \<times> event list" where
  "work_stage c req =
     (if strict_eq (get_prop (body req) ''action'') (Str ''work_generate'') \<and> \<not> nodeOverride_of req
      then
        if \<not> truthy (get_prop (body req) ''hash'')
        then Inl \<lparr>final = c, trace = [],
                  reply = Some (Response 500
                    (Obj [(''error'', Str ''Requires valid hash to perform work'')]))\<rparr>
        else
          let cachedWork = getCache c (get_prop (body req) ''hash'') in
          if cache_hit cachedWork
          then Inl \<lparr>final = c, trace = [CacheGet (get_prop (body req) ''hash'')],
                    reply = Some (Response 200 (Obj [(''work'', cachedWork)]))\<rparr>
          else Inr (True, [CacheGet (get_prop (body req) ''hash'')])
      else Inr (False, []))"

text \<open>
  Lines 89 to 96. An exception of \<^verbatim>\<open>JSON.parse\<close>, which first converts its argument to
  a string, rejects the handler's promise: nothing is sent.
\<close>

definition representative_stage ::
  "world \<Rightarrow> cache \<Rightarrow> http_request \<Rightarrow> outcome + bool \<times> event list" where
  "representative_stage w c req =
     (if strict_eq (get_prop (body req) ''action'') (Str ''representatives_online'')
         \<and> \<not> nodeOverride_of req
      then
        let cachedValue = getCache c repCacheKey in
        if cache_hit cachedValue
        then Inl \<lparr>final = c, trace = [CacheGet repCacheKey],
                  reply = (case to_str cachedValue of
                             Inl err \<Rightarrow> None
                           | Inr text \<Rightarrow>
                               (case parse w text of
                                  Inr v \<Rightarrow> Some (Response 200 v)
                                | Inl err \<Rightarrow> None))\<rparr>
        else Inr (True, [CacheGet repCacheKey])
      else Inr (False, []))"

text \<open>Puts the effects already made in front of those of the rest of the run.\<close>

definition after :: "event list \<Rightarrow> outcome \<Rightarrow> outcome" where
  "after evs out = out\<lparr>trace := evs @ trace out\<rparr>"

text \<open>
  Lines 44 to 150, the handler of \<^verbatim>\<open>POST /api/node-api\<close>. Line 63 builds the error with a
  template literal: when the conversion of the action to a string throws, the handler's
  promise is rejected and nothing is sent.
\<close>

definition node_api :: "config \<Rightarrow> world \<Rightarrow> cache \<Rightarrow> http_request \<Rightarrow> outcome" where
  "node_api cfg w c req =
     (let action = get_prop (body req) ''action'' in
      if \<not> truthy action \<or> indexOf allowedActions action = -1
      then \<lparr>final = c, trace = [],
            reply = (case to_str action of
                       Inl err \<Rightarrow> None
                     | Inr text \<Rightarrow>
                         Some (Response 500
                           (Obj [(''error'', Str (''Action '' @ text @ '' not allowed''))])))\<rparr>
      else
        let nodeOverride = nodeOverride_of req in
        case work_stage c req of
          Inl answered \<Rightarrow> answered
        | Inr (workRequest, evs1) \<Rightarrow>
            (case representative_stage w c req of
               Inl answered \<Rightarrow> after evs1 answered
             | Inr (representativeRequest, evs2) \<Rightarrow>
                 let nodeUrl = (if (workRequest \<or> representativeRequest) \<and> \<not> nodeOverride
                                then nanoWorkNodeUrl cfg else nodeUrl_of cfg req)
                 in if workRequest \<and> useDPoW cfg
                    then after (evs1 @ evs2) (send_to_dpow cfg w c (body req))
                    else after (evs1 @ evs2)
                           (send_to_node w c (body req) workRequest representativeRequest
                              nodeOverride nodeUrl)))"

text \<open>
  Requests served one after the other, each with the world it meets, on the cache the
  previous one left. A run is taken as a whole: what another request does to the cache
  while this one awaits an answer is not part of the model.
\<close>

fun serve :: "config \<Rightarrow> cache \<Rightarrow> (world \<times> http_request) list \<Rightarrow> outcome list" where
  "serve cfg c [] = []"
| "serve cfg c ((w, req) # rest) =
     (let out = node_api cfg w c req in out # serve cfg (final out) rest)"

text \<open>The cache after the requests.\<close>

fun cache_after :: "config \<Rightarrow> cache \<Rightarrow> (world \<times> http_request) list \<Rightarrow> cache" where
  "cache_after cfg c [] = c"
| "cache_after cfg c ((w, req) # rest) = cache_after cfg (final (node_api cfg w c req)) rest"

text \<open>The process from its start: the error that ends it, or what it answers.\<close>

definition run_process :: "config \<Rightarrow> (world \<times> http_request) list \<Rightarrow> outcome list throws" where
  "run_process cfg reqs =
     (case start cfg of Inl err \<Rightarrow> Inl err | Inr c \<Rightarrow> Inr (serve cfg c reqs))"

text \<open>
  Calls of \<^verbatim>\<open>putCache\<close> without a time, one after the other; each of them throws, and
  the caller's \<^verbatim>\<open>catch\<close> lets the process go on.
\<close>

fun put_all :: "cache \<Rightarrow> (js \<times> js) list \<Rightarrow> cache" where
  "put_all c [] = c"
| "put_all c ((h, w) # rest) = put_all (fst (putCache c h w None)) rest"

section \<open>Properties of traces\<close>

fun is_cache_event :: "event \<Rightarrow> bool" where
  "is_cache_event (CacheGet k) = True"
| "is_cache_event (CachePut k v t) = True"
| "is_cache_event _ = False"

fun is_request :: "event \<Rightarrow> bool" where
  "is_request (Request m u b) = True"
| "is_request _ = False"

text \<open>Every entry holds a truthy work: what the writes of lines 118 and 130 keep.\<close>

definition all_truthy :: "cache \<Rightarrow> bool" where
  "all_truthy c = list_all (\<lambda>e. truthy (work e)) c"

section \<open>Example inputs\<close>

text \<open>
  A configuration with the memory backend, and its variants with the Redis backend and
  with the proof-of-work service.
\<close>

definition ex_cfg :: config where
  "ex_cfg =
     \<lparr>nanoNodeUrl = ''http://node:7002'', nanoWorkNodeUrl = ''http://work:7002'',
      useDPoW = False, useRedisCache = False, dpowUrl = ''https://dpow.example/service'',
      dpowUser = Str ''user'', dpowKey = Str ''key''\<rparr>"

definition ex_cfg_redis :: config where
  "ex_cfg_redis = ex_cfg\<lparr>useRedisCache := True\<rparr>"

definition ex_cfg_dpow :: config where
  "ex_cfg_dpow = ex_cfg\<lparr>useDPoW := True\<rparr>"

text \<open>
  A world whose services answer every request with a work value, whose timestamp
  functions wrap the response, and whose JSON functions know one text.
\<close>

definition ex_world :: world where
  "ex_world =
     \<lparr>request = (\<lambda>m u b. Inr (Obj [(''work'', Str ''1234'')])),
      mapAccountHistory = (\<lambda>r. Inr (Obj [(''stamped'', r)])),
      mapBlocksInfo = (\<lambda>hs r. Inr (Obj [(''stamped'', r)])),
      mapPending = (\<lambda>r. Inr (Obj [(''stamped'', r)])),
      stringify = (\<lambda>v. ''[]''),
      parse = (\<lambda>s. if s = ''[]'' then Inr (Arr []) else Inl ''SyntaxError'')\<rparr>"

definition ex_world_history :: world where
  "ex_world_history = ex_world\<lparr>request := (\<lambda>m u b. Inr (Obj [(''history'', Arr [])]))\<rparr>"

definition ex_world_accounts :: world where
  "ex_world_accounts = ex_world\<lparr>request := (\<lambda>m u b. Inr (Arr []))\<rparr>"

definition ex_world_down :: world where
  "ex_world_down = ex_world\<lparr>request := (\<lambda>m u b. Inl ''RequestError: ECONNREFUSED'')\<rparr>"

definition ex_empty :: cache where
  "ex_empty = []"

definition ex_work_request :: http_request where
  "ex_work_request =
     \<lparr>body = Obj [(''action'', Str ''work_generate''), (''hash'', Str ''ABCD'')], node = None\<rparr>"

definition ex_representatives_request :: http_request where
  "ex_representatives_request =
     \<lparr>body = Obj [(''action'', Str ''representatives_online'')], node = None\<rparr>"

definition ex_history_override :: http_request where
  "ex_history_override =
     \<lparr>body = Obj [(''action'', Str ''account_history''), (''account'', Str ''xrb_1'')],
      node = Some ''http://other:7002''\<rparr>"

definition ex_rejected :: http_request where
  "ex_rejected = \<lparr>body = Obj [(''action'', Str ''delete_account'')], node = None\<rparr>"

text \<open>The body \<^verbatim>\<open>{"action": {"toString": 1}}\<close>.\<close>

definition ex_unprintable :: http_request where
  "ex_unprintable =
     \<lparr>body = Obj [(''action'', Obj [(''toString'', Num ''1'')])], node = None\<rparr>"

text \<open>Caches that hold the empty string under a key, and one that holds a work value.\<close>

definition ex_blank_entry :: cache where
  "ex_blank_entry = [\<lparr>hash = Str ''ABCD'', work = Str []\<rparr>]"

definition ex_blank_representatives :: cache where
  "ex_blank_representatives = [\<lparr>hash = Str ''online-representatives'', work = Str []\<rparr>]"

definition ex_cached :: cache where
  "ex_cached = [\<lparr>hash = Str ''ABCD'', work = Str ''1234''\<rparr>]"

section \<open>Facts about values\<close>

lemma show_nat_not_Nil: "show_nat n \<noteq> []"
  by (subst show_nat.simps) simp

lemma show_nat_zero: "(show_nat n = ''0'') = (n = 0)"
proof (cases "n < 10")
  case True
  then have "n \<in> {0,1,2,3,4,5,6,7,8,9}" by auto
  then show ?thesis by (auto simp: show_nat.simps)
next
  case False
  have "show_nat n = show_nat (n div 10) @ [''0123456789'' ! (n mod 10)]"
    using False by (subst show_nat.simps) simp
  moreover have "show_nat (n div 10) \<noteq> []" by (rule show_nat_not_Nil)
  ultimately have "length (show_nat n) \<ge> 2"
    by (cases "show_nat (n div 10)") simp_all
  then show ?thesis using False by auto
qed

lemma cache_hit_Str: "cache_hit (Str v) = (v \<noteq> [])"
  by (simp add: cache_hit_def show_nat_zero)

lemma strict_eq_Str: "strict_eq (Str s) v = (v = Str s)"
  by (cases v) auto

lemma strict_eq_Str2: "strict_eq v (Str s) = (v = Str s)"
  by (cases v) auto

lemmas run_defs =
  node_api_def work_stage_def representative_stage_def send_to_node_def send_to_dpow_def
  after_def add_timestamps_def nodeOverride_of_def nodeUrl_of_def cache_hit_def
  getCache_def putCache_def time_given_def indexOf_def allowedActions_def repCacheKey_def
  dpow_body_def recommended_representatives_def getRecommendedReps_def start_def
  run_process_def show_nat_zero Let_def

lemmas ex_defs =
  ex_cfg_def ex_cfg_redis_def ex_cfg_dpow_def ex_world_def ex_world_history_def
  ex_world_accounts_def ex_world_down_def ex_empty_def ex_work_request_def
  ex_representatives_request_def ex_history_override_def ex_rejected_def ex_unprintable_def
  ex_blank_entry_def ex_blank_representatives_def ex_cached_def

section \<open>The cache functions\<close>

lemma not_time_given_None: "\<not> time_given None"
  by (simp add: time_given_def)

lemma putCache_untimed:
  "\<not> time_given time \<Longrightarrow>
   putCache c h w time =
     (c @ [\<lparr>hash = h, work = w\<rparr>], Some ''ReferenceError: memoryCacheLength is not defined'')"
  by (simp add: putCache_def)

lemma put_all_appends:
  "put_all c ins = c @ map (\<lambda>(h, w). \<lparr>hash = h, work = w\<rparr>) ins"
proof (induction ins arbitrary: c)
  case Nil
  then show ?case by simp
next
  case (Cons p ins)
  obtain h w where p: "p = (h, w)" by (cases p)
  show ?case
    unfolding p by (simp add: Cons.IH putCache_untimed not_time_given_None)
qed

text \<open>
  Claim C5 fails. Every \<^verbatim>\<open>putCache\<close> without a time pushes its entry and then throws at
  line 178, where \<^verbatim>\<open>memoryCacheLength\<close> is read and is not declared; the shift is never
  reached. So the entries inserted all stay, in the order of their insertion, and the
  array grows by one with each of them: there is no capacity that bounds it and no
  entry leaves it.
\<close>

theorem work_cache_never_shifts:
  "putCache c h w None =
     (c @ [\<lparr>hash = h, work = w\<rparr>], Some ''ReferenceError: memoryCacheLength is not defined'')
   \<and> put_all c ins = c @ map (\<lambda>(h, w). \<lparr>hash = h, work = w\<rparr>) ins
   \<and> length (put_all c ins) = length c + length ins"
  by (simp add: putCache_untimed not_time_given_None put_all_appends)

theorem work_cache_never_shifts_witness:
  "put_all [] [(Str ''A'', Str ''1''), (Str ''B'', Str ''2''), (Str ''C'', Str ''3'')]
     = [\<lparr>hash = Str ''A'', work = Str ''1''\<rparr>, \<lparr>hash = Str ''B'', work = Str ''2''\<rparr>,
        \<lparr>hash = Str ''C'', work = Str ''3''\<rparr>]
   \<and> putCache [\<lparr>hash = Str ''A'', work = Str ''1''\<rparr>] (Str ''B'') (Str ''2'') None
     = ([\<lparr>hash = Str ''A'', work = Str ''1''\<rparr>, \<lparr>hash = Str ''B'', work = Str ''2''\<rparr>],
        Some ''ReferenceError: memoryCacheLength is not defined'')"
  using work_cache_never_shifts [of "[]" "Str ''A''" "Str ''1''"
      "[(Str ''A'', Str ''1''), (Str ''B'', Str ''2''), (Str ''C'', Str ''3'')]"]
    work_cache_never_shifts [of "[\<lparr>hash = Str ''A'', work = Str ''1''\<rparr>]" "Str ''B''" "Str ''2''" "[]"]
  by (simp del: put_all.simps)

text \<open>
  Claim C9, as amended. A \<^verbatim>\<open>putCache\<close> that gives a time other than \<open>0\<close> leaves the
  cache as it was, and throws nothing: no entry is added, removed or changed. A time of
  \<open>0\<close> is falsy at line 176 and counts as no time: the entry is pushed.
\<close>

theorem memory_put_with_time_unchanged:
  assumes "0 < t"
  shows "putCache c h w (Some t) = (c, None)
         \<and> fst (putCache c h w (Some 0)) = c @ [\<lparr>hash = h, work = w\<rparr>]"
  using assms by (simp add: putCache_def time_given_def)

theorem memory_put_with_time_unchanged_witness:
  "(0::nat) < 300
   \<and> putCache [\<lparr>hash = Str ''ABCD'', work = Str ''1234''\<rparr>]
        (Str ''online-representatives'') (Str ''[]'') (Some 300)
      = ([\<lparr>hash = Str ''ABCD'', work = Str ''1234''\<rparr>], None)"
proof -
  have t: "(0::nat) < 300" by simp
  show ?thesis
    using memory_put_with_time_unchanged [OF t, of
        "[\<lparr>hash = Str ''ABCD'', work = Str ''1234''\<rparr>]" "Str ''online-representatives''"
        "Str ''[]''"]
    by simp
qed

text \<open>
  The claim as stated fails for the time \<open>0\<close>: the call gives a third argument, and the
  entry is stored.
\<close>

theorem memory_put_with_time_zero_stores:
  "fst (putCache [] (Str ''ABCD'') (Str ''1234'') (Some 0))
     = [\<lparr>hash = Str ''ABCD'', work = Str ''1234''\<rparr>]
   \<and> fst (putCache [] (Str ''ABCD'') (Str ''1234'') (Some 0)) \<noteq> []"
  by (simp add: putCache_def time_given_def)

lemma find_append_none:
  "find P xs = None \<Longrightarrow> find P (xs @ ys) = find P ys"
  by (induction xs) (auto split: if_splits)

lemma find_append_some:
  "find P xs = Some e \<Longrightarrow> find P (xs @ ys) = Some e"
  by (induction xs) (auto split: if_splits)

lemma getCache_append:
  "getCache (xs @ ys) h =
     (case find (\<lambda>e. strict_eq (hash e) h) xs of
        Some e \<Rightarrow> work e
      | None \<Rightarrow> getCache ys h)"
  by (auto simp: getCache_def find_append_none find_append_some split: option.splits)

text \<open>
  Claim C3, as amended. A write without a time appends a pair and removes none for the
  key, so the array holds one pair per write and can hold several for one key; a read
  gives the oldest pair the array holds for the key. After two writes for one hash (a
  primitive value, which \<^verbatim>\<open>===\<close> compares by value) the read gives the value the key had
  before them, or else the first value written, never the second.
\<close>

theorem write_then_read:
  assumes "strict_eq h h"
  shows "fst (putCache (fst (putCache c h v1 None)) h v2 None)
           = c @ [\<lparr>hash = h, work = v1\<rparr>, \<lparr>hash = h, work = v2\<rparr>]
         \<and> getCache (fst (putCache (fst (putCache c h v1 None)) h v2 None)) h
           = (case find (\<lambda>e. strict_eq (hash e) h) c of Some e \<Rightarrow> work e | None \<Rightarrow> v1)"
proof -
  have 1: "fst (putCache (fst (putCache c h v1 None)) h v2 None)
             = c @ [\<lparr>hash = h, work = v1\<rparr>, \<lparr>hash = h, work = v2\<rparr>]"
    by (simp add: putCache_untimed not_time_given_None)
  have 2: "getCache [\<lparr>hash = h, work = v1\<rparr>, \<lparr>hash = h, work = v2\<rparr>] h = v1"
    using assms by (simp add: getCache_def)
  show ?thesis
    unfolding 1 by (simp add: getCache_append 2 split: option.splits)
qed

theorem write_then_read_witness:
  "strict_eq (Str ''ABCD'') (Str ''ABCD'')
   \<and> fst (putCache (fst (putCache [] (Str ''ABCD'') (Str ''1111'') None))
            (Str ''ABCD'') (Str ''2222'') None)
       = [\<lparr>hash = Str ''ABCD'', work = Str ''1111''\<rparr>, \<lparr>hash = Str ''ABCD'', work = Str ''2222''\<rparr>]
   \<and> getCache [\<lparr>hash = Str ''ABCD'', work = Str ''1111''\<rparr>, \<lparr>hash = Str ''ABCD'', work = Str ''2222''\<rparr>]
        (Str ''ABCD'') = Str ''1111''"
proof -
  have a: "strict_eq (Str ''ABCD'') (Str ''ABCD'')" by simp
  show ?thesis
    using write_then_read [OF a, of "[]" "Str ''1111''" "Str ''2222''"]
    by (simp add: getCache_def)
qed

text \<open>
  The claim as stated fails: after two writes for one hash the array holds two pairs
  for it, and the read gives the first value, not the second.
\<close>

theorem memory_second_write_not_read:
  "fst (putCache (fst (putCache [] (Str ''ABCD'') (Str ''1111'') None))
         (Str ''ABCD'') (Str ''2222'') None)
     = [\<lparr>hash = Str ''ABCD'', work = Str ''1111''\<rparr>, \<lparr>hash = Str ''ABCD'', work = Str ''2222''\<rparr>]
   \<and> getCache
        (fst (putCache (fst (putCache [] (Str ''ABCD'') (Str ''1111'') None))
                (Str ''ABCD'') (Str ''2222'') None)) (Str ''ABCD'') = Str ''1111''
   \<and> getCache
        (fst (putCache (fst (putCache [] (Str ''ABCD'') (Str ''1111'') None))
                (Str ''ABCD'') (Str ''2222'') None)) (Str ''ABCD'') \<noteq> Str ''2222''"
  by (simp add: putCache_def getCache_def time_given_def)

section \<open>The allowlist\<close>

lemma indexOf_from_miss:
  "0 \<le> i \<Longrightarrow> (indexOf_from i xs v = -1) = (\<forall>x\<in>set xs. \<not> strict_eq x v)"
  by (induction xs arbitrary: i) auto

lemma rejected_iff:
  "(\<not> truthy a \<or> indexOf allowedActions a = -1) = (a \<notin> set allowedActions)"
proof -
  have "a \<in> set allowedActions \<Longrightarrow> truthy a"
    by (auto simp: allowedActions_def)
  moreover have "(indexOf allowedActions a = -1) = (a \<notin> set allowedActions)"
    unfolding indexOf_def
    by (simp add: indexOf_from_miss) (auto simp: allowedActions_def strict_eq_Str)
  ultimately show ?thesis by blast
qed

lemma node_api_rejected:
  assumes "get_prop (body req) ''action'' \<notin> set allowedActions"
  shows "node_api cfg w c req =
           \<lparr>final = c, trace = [],
            reply = (case to_str (get_prop (body req) ''action'') of
                       Inl err \<Rightarrow> None
                     | Inr text \<Rightarrow>
                         Some (Response 500
                           (Obj [(''error'', Str (''Action '' @ text @ '' not allowed''))])))\<rparr>"
proof -
  have "\<not> truthy (get_prop (body req) ''action'')
          \<or> indexOf allowedActions (get_prop (body req) ''action'') = -1"
    using assms by (rule iffD2 [OF rejected_iff])
  then show ?thesis
    unfolding node_api_def Let_def by (simp only: if_True)
qed

text \<open>
  Claim C6 fails for an action that cannot be converted to a string. A request whose
  action is not one of the fifteen allowed actions (a missing action reads as
  \<^verbatim>\<open>undefined\<close>, which is none of them) has no effect at all: no cache read, no cache
  write, no request to a node or to the proof-of-work service, and the cache is the
  one before. When the action is a string, a number, \<^verbatim>\<open>null\<close> or missing, or an object
  with no member \<^verbatim>\<open>toString\<close>, the answer is status 500 with the error
  \<^verbatim>\<open>Action <action> not allowed\<close>. When the action is an object with a member
  \<^verbatim>\<open>toString\<close>, the template literal of line 63 throws and no response is sent.
\<close>

theorem disallowed_action_never_served:
  assumes "get_prop (body req) ''action'' \<notin> set allowedActions"
  shows "final (node_api cfg w c req) = c
    \<and> trace (node_api cfg w c req) = []
    \<and> (\<forall>s. get_prop (body req) ''action'' = Str s \<longrightarrow>
          reply (node_api cfg w c req) =
            Some (Response 500 (Obj [(''error'', Str (''Action '' @ s @ '' not allowed''))])))
    \<and> (\<forall>n. get_prop (body req) ''action'' = Num n \<longrightarrow>
          reply (node_api cfg w c req) =
            Some (Response 500 (Obj [(''error'', Str (''Action '' @ n @ '' not allowed''))])))
    \<and> (get_prop (body req) ''action'' = Undefined \<longrightarrow>
          reply (node_api cfg w c req) =
            Some (Response 500 (Obj [(''error'', Str ''Action undefined not allowed'')])))
    \<and> (get_prop (body req) ''action'' = Null \<longrightarrow>
          reply (node_api cfg w c req) =
            Some (Response 500 (Obj [(''error'', Str ''Action null not allowed'')])))
    \<and> (\<forall>kvs. get_prop (body req) ''action'' = Obj kvs \<and> ''toString'' \<notin> fst ` set kvs \<longrightarrow>
          reply (node_api cfg w c req) =
            Some (Response 500 (Obj [(''error'', Str ''Action [object Object] not allowed'')])))
    \<and> (\<forall>kvs. get_prop (body req) ''action'' = Obj kvs \<and> ''toString'' \<in> fst ` set kvs \<longrightarrow>
          reply (node_api cfg w c req) = None)
    \<and> (\<forall>text. to_str (get_prop (body req) ''action'') = Inr text \<longrightarrow>
          reply (node_api cfg w c req) =
            Some (Response 500 (Obj [(''error'', Str (''Action '' @ text @ '' not allowed''))])))
    \<and> (\<forall>err. to_str (get_prop (body req) ''action'') = Inl err \<longrightarrow>
          reply (node_api cfg w c req) = None)
    \<and> length allowedActions = 15 \<and> Undefined \<notin> set allowedActions"
  unfolding node_api_rejected [OF assms]
  by (simp add: allowedActions_def)

theorem disallowed_action_never_served_witness:
  "get_prop (body ex_unprintable) ''action'' \<notin> set allowedActions
   \<and> get_prop (body ex_unprintable) ''action'' = Obj [(''toString'', Num ''1'')]
   \<and> node_api ex_cfg ex_world ex_empty ex_unprintable =
       \<lparr>final = ex_empty, trace = [], reply = None\<rparr>
   \<and> get_prop (body ex_rejected) ''action'' \<notin> set allowedActions
   \<and> node_api ex_cfg ex_world ex_empty ex_rejected =
       \<lparr>final = ex_empty, trace = [],
        reply = Some (Response 500 (Obj [(''error'', Str ''Action delete_account not allowed'')]))\<rparr>"
proof -
  have a: "get_prop (body ex_unprintable) ''action'' \<notin> set allowedActions"
    by (simp add: ex_unprintable_def allowedActions_def)
  have a': "get_prop (body ex_unprintable) ''action'' = Obj [(''toString'', Num ''1'')]"
    by (simp add: ex_unprintable_def)
  have b: "get_prop (body ex_rejected) ''action'' \<notin> set allowedActions"
    by (simp add: ex_rejected_def allowedActions_def)
  have b': "get_prop (body ex_rejected) ''action'' = Str ''delete_account''"
    by (simp add: ex_rejected_def)
  note u = disallowed_action_never_served [OF a, of ex_cfg ex_world ex_empty]
  note r = disallowed_action_never_served [OF b, of ex_cfg ex_world ex_empty]
  have 1: "reply (node_api ex_cfg ex_world ex_empty ex_unprintable) = None"
    using u a' by simp
  have 2: "reply (node_api ex_cfg ex_world ex_empty ex_rejected) =
       Some (Response 500 (Obj [(''error'', Str ''Action delete_account not allowed'')]))"
    using r b' by simp
  have 3: "node_api ex_cfg ex_world ex_empty ex_unprintable =
       \<lparr>final = ex_empty, trace = [], reply = None\<rparr>"
    using u 1 by (cases "node_api ex_cfg ex_world ex_empty ex_unprintable") simp
  have 4: "node_api ex_cfg ex_world ex_empty ex_rejected =
       \<lparr>final = ex_empty, trace = [],
        reply = Some (Response 500 (Obj [(''error'', Str ''Action delete_account not allowed'')]))\<rparr>"
    using r 2 by (cases "node_api ex_cfg ex_world ex_empty ex_rejected") simp
  show ?thesis using a a' b 3 4 by blast
qed

section \<open>Runs of the node API\<close>

text \<open>An allowed action passes line 62; what follows is lines 66 to 149.\<close>

lemma node_api_accepted:
  assumes "get_prop (body req) ''action'' \<in> set allowedActions"
  shows "node_api cfg w c req =
     (case work_stage c req of
          Inl answered \<Rightarrow> answered
        | Inr (workRequest, evs1) \<Rightarrow>
            (case representative_stage w c req of
               Inl answered \<Rightarrow> after evs1 answered
             | Inr (representativeRequest, evs2) \<Rightarrow>
                 if workRequest \<and> useDPoW cfg
                 then after (evs1 @ evs2) (send_to_dpow cfg w c (body req))
                 else after (evs1 @ evs2)
                        (send_to_node w c (body req) workRequest representativeRequest
                           (nodeOverride_of req)
                           (if (workRequest \<or> representativeRequest) \<and> \<not> nodeOverride_of req
                            then nanoWorkNodeUrl cfg else nodeUrl_of cfg req))))"
proof -
  have "\<not> (\<not> truthy (get_prop (body req) ''action'')
          \<or> indexOf allowedActions (get_prop (body req) ''action'') = -1)"
    using assms rejected_iff [of "get_prop (body req) ''action''"] by blast
  then show ?thesis
    unfolding node_api_def Let_def by (simp only: if_False)
qed

lemma work_generate_allowed: "Str ''work_generate'' \<in> set allowedActions"
  by (simp add: allowedActions_def)

lemma representatives_online_allowed: "Str ''representatives_online'' \<in> set allowedActions"
  by (simp add: allowedActions_def)

lemma add_timestamps_events:
  "filter is_cache_event (fst (add_timestamps w b r)) = []
   \<and> filter is_request (fst (add_timestamps w b r)) = []"
  by (simp add: add_timestamps_def Let_def split: sum.splits)

lemma add_timestamps_result:
  "snd (add_timestamps w b r) =
     (if get_prop b ''action'' = Str ''account_history'' then mapAccountHistory w r
      else if get_prop b ''action'' = Str ''blocks_info''
        then mapBlocksInfo w (get_prop b ''hashes'') r
      else if get_prop b ''action'' = Str ''pending'' then mapPending w r
      else Inr r)"
  by (simp add: add_timestamps_def Let_def strict_eq_Str2 split: sum.splits)

lemma add_timestamps_other:
  "get_prop b ''action'' \<noteq> Str ''account_history'' \<Longrightarrow>
   get_prop b ''action'' \<noteq> Str ''blocks_info'' \<Longrightarrow>
   get_prop b ''action'' \<noteq> Str ''pending'' \<Longrightarrow>
   add_timestamps w b r = ([], Inr r)"
  by (simp add: add_timestamps_def Let_def strict_eq_Str2)

lemma override_run:
  assumes "node req = Some n" and "4 < length n"
    and "get_prop (body req) ''action'' \<in> set allowedActions"
  shows "node_api cfg w c req = send_to_node w c (body req) False False True n"
proof -
  have o: "nodeOverride_of req" using assms(1,2) by (auto simp: nodeOverride_of_def)
  have u: "nodeUrl_of cfg req = n" using assms(1,2) by (auto simp: nodeUrl_of_def)
  have ws: "work_stage c req = Inr (False, [])" using o by (simp add: work_stage_def)
  have rs: "representative_stage w c req = Inr (False, [])"
    using o by (simp add: representative_stage_def)
  show ?thesis
    unfolding node_api_accepted [OF assms(3)] ws rs using o u by (simp add: after_def)
qed

lemma send_to_node_override:
  "send_to_node w c b False False True n =
     (case request w ''post'' n b of
        Inl err \<Rightarrow> \<lparr>final = c, trace = [Request ''post'' n b], reply = Some (Response 500 (Str err))\<rparr>
      | Inr proxyRes \<Rightarrow>
          \<lparr>final = c, trace = Request ''post'' n b # fst (add_timestamps w b proxyRes),
           reply = Some (case snd (add_timestamps w b proxyRes) of
                           Inl err \<Rightarrow> Response 500 (Str err)
                         | Inr res \<Rightarrow> Response 200 res)\<rparr>)"
  by (simp add: send_to_node_def Let_def split: sum.splits)

text \<open>
  Claim C1, as amended. A request with an allowed action and a valid override (a
  \<^verbatim>\<open>node\<close> parameter longer than four characters) reads nothing from the cache and
  writes nothing to it, and its only request goes to the override URL. The response of
  that node still passes through the timestamp stage: for \<^verbatim>\<open>account_history\<close>,
  \<^verbatim>\<open>blocks_info\<close> and \<^verbatim>\<open>pending\<close> the client gets what the mapping function returns (or
  status 500 when it fails), for every other action the response of the node as it is.
  Lines 137 to 146 are outside the test \<^verbatim>\<open>!nodeOverride\<close> of line 128.
\<close>

theorem override_skips_cache_only:
  assumes "node req = Some n" and "4 < length n"
    and "get_prop (body req) ''action'' \<in> set allowedActions"
  shows "final (node_api cfg w c req) = c
    \<and> filter is_cache_event (trace (node_api cfg w c req)) = []
    \<and> filter is_request (trace (node_api cfg w c req)) = [Request ''post'' n (body req)]
    \<and> (\<forall>err. request w ''post'' n (body req) = Inl err \<longrightarrow>
          reply (node_api cfg w c req) = Some (Response 500 (Str err)))
    \<and> (\<forall>proxyRes. request w ''post'' n (body req) = Inr proxyRes \<longrightarrow>
          reply (node_api cfg w c req) =
            Some (case (if get_prop (body req) ''action'' = Str ''account_history''
                          then mapAccountHistory w proxyRes
                        else if get_prop (body req) ''action'' = Str ''blocks_info''
                          then mapBlocksInfo w (get_prop (body req) ''hashes'') proxyRes
                        else if get_prop (body req) ''action'' = Str ''pending''
                          then mapPending w proxyRes
                        else Inr proxyRes) of
                    Inl err \<Rightarrow> Response 500 (Str err)
                  | Inr res \<Rightarrow> Response 200 res))"
proof (cases "request w ''post'' n (body req)")
  case (Inl err)
  then show ?thesis
    unfolding override_run [OF assms] send_to_node_override by simp
next
  case (Inr proxyRes)
  then show ?thesis
    unfolding override_run [OF assms] send_to_node_override
    by (simp add: add_timestamps_events add_timestamps_result)
qed

theorem override_skips_cache_only_witness:
  "node ex_history_override = Some ''http://other:7002'' \<and> 4 < length ''http://other:7002''
   \<and> get_prop (body ex_history_override) ''action'' \<in> set allowedActions
   \<and> request ex_world_history ''post'' ''http://other:7002'' (body ex_history_override)
       = Inr (Obj [(''history'', Arr [])])
   \<and> final (node_api ex_cfg ex_world_history ex_cached ex_history_override) = ex_cached
   \<and> filter is_cache_event (trace (node_api ex_cfg ex_world_history ex_cached ex_history_override)) = []
   \<and> reply (node_api ex_cfg ex_world_history ex_cached ex_history_override)
       = Some (Response 200 (Obj [(''stamped'', Obj [(''history'', Arr [])])]))"
proof -
  have a: "node ex_history_override = Some ''http://other:7002''"
    by (simp add: ex_history_override_def)
  have b: "4 < length ''http://other:7002''" by simp
  have c: "get_prop (body ex_history_override) ''action'' \<in> set allowedActions"
    by (simp add: ex_history_override_def allowedActions_def)
  have d: "request ex_world_history ''post'' ''http://other:7002'' (body ex_history_override)
       = Inr (Obj [(''history'', Arr [])])"
    by (simp add: ex_world_history_def)
  have e: "get_prop (body ex_history_override) ''action'' = Str ''account_history''"
    by (simp add: ex_history_override_def)
  have f: "mapAccountHistory ex_world_history (Obj [(''history'', Arr [])])
             = Inr (Obj [(''stamped'', Obj [(''history'', Arr [])])])"
    by (simp add: ex_world_history_def ex_world_def)
  show ?thesis
    using override_skips_cache_only [OF a b c, of ex_cfg ex_world_history ex_cached] a c d e f
    by simp
qed

text \<open>
  The claim as stated fails: with an override, the response to \<^verbatim>\<open>account_history\<close> is
  the one the timestamp function made of the node's response, not the node's response.
\<close>

theorem override_response_still_stamped:
  "nodeOverride_of ex_history_override
   \<and> request ex_world_history ''post'' ''http://other:7002'' (body ex_history_override)
       = Inr (Obj [(''history'', Arr [])])
   \<and> node_api ex_cfg ex_world_history ex_empty ex_history_override =
       \<lparr>final = ex_empty,
        trace = [Request ''post'' ''http://other:7002''
                   (Obj [(''action'', Str ''account_history''), (''account'', Str ''xrb_1'')]),
                 MapAccountHistory (Obj [(''history'', Arr [])])],
        reply = Some (Response 200 (Obj [(''stamped'', Obj [(''history'', Arr [])])]))\<rparr>"
  by (simp add: run_defs ex_defs)

section \<open>Work requests\<close>

lemma work_miss_run:
  assumes "get_prop (body req) ''action'' = Str ''work_generate''"
    and "\<not> nodeOverride_of req"
    and "truthy (get_prop (body req) ''hash'')"
    and "\<not> cache_hit (getCache c (get_prop (body req) ''hash''))"
  shows "node_api cfg w c req =
           after [CacheGet (get_prop (body req) ''hash'')]
             (if useDPoW cfg then send_to_dpow cfg w c (body req)
              else send_to_node w c (body req) True False False (nanoWorkNodeUrl cfg))"
proof -
  have a: "get_prop (body req) ''action'' \<in> set allowedActions"
    using assms(1) work_generate_allowed by simp
  have ws: "work_stage c req = Inr (True, [CacheGet (get_prop (body req) ''hash'')])"
    using assms by (simp add: work_stage_def)
  have rs: "representative_stage w c req = Inr (False, [])"
    using assms(1) by (simp add: representative_stage_def)
  show ?thesis
    unfolding node_api_accepted [OF a] ws rs using assms(2) by simp
qed

lemma representatives_miss_run:
  assumes "get_prop (body req) ''action'' = Str ''representatives_online''"
    and "\<not> nodeOverride_of req"
    and "\<not> cache_hit (getCache c repCacheKey)"
  shows "node_api cfg w c req =
           after [CacheGet repCacheKey]
             (send_to_node w c (body req) False True False (nanoWorkNodeUrl cfg))"
proof -
  have a: "get_prop (body req) ''action'' \<in> set allowedActions"
    using assms(1) representatives_online_allowed by simp
  have ws: "work_stage c req = Inr (False, [])"
    using assms(1) by (simp add: work_stage_def)
  have rs: "representative_stage w c req = Inr (True, [CacheGet repCacheKey])"
    using assms by (simp add: representative_stage_def)
  show ?thesis
    unfolding node_api_accepted [OF a] ws rs using assms(2) by simp
qed

lemma work_hit_run:
  assumes "get_prop (body req) ''action'' = Str ''work_generate''"
    and "\<not> nodeOverride_of req"
    and "truthy (get_prop (body req) ''hash'')"
    and "cache_hit (getCache c (get_prop (body req) ''hash''))"
  shows "node_api cfg w c req =
           \<lparr>final = c, trace = [CacheGet (get_prop (body req) ''hash'')],
            reply = Some (Response 200
              (Obj [(''work'', getCache c (get_prop (body req) ''hash''))]))\<rparr>"
proof -
  have a: "get_prop (body req) ''action'' \<in> set allowedActions"
    using assms(1) work_generate_allowed by simp
  have ws: "work_stage c req =
      Inl \<lparr>final = c, trace = [CacheGet (get_prop (body req) ''hash'')],
            reply = Some (Response 200
              (Obj [(''work'', getCache c (get_prop (body req) ''hash''))]))\<rparr>"
    using assms by (simp add: work_stage_def)
  show ?thesis
    unfolding node_api_accepted [OF a] ws by simp
qed



text \<open>A run leaves the array as it was or appends one entry, whose work is truthy.\<close>

lemma send_to_node_final:
  "final (send_to_node w c b wr rr no u) = c
   \<or> (\<exists>h v. truthy v \<and> final (send_to_node w c b wr rr no u) = c @ [\<lparr>hash = h, work = v\<rparr>])"
  by (auto simp: send_to_node_def Let_def putCache_def time_given_def
      split: sum.splits option.splits)

lemma send_to_dpow_final:
  "final (send_to_dpow cfg w c b) = c
   \<or> (\<exists>h v. truthy v \<and> final (send_to_dpow cfg w c b) = c @ [\<lparr>hash = h, work = v\<rparr>])"
  by (auto simp: send_to_dpow_def putCache_def time_given_def split: sum.splits)

lemma node_api_final:
  "final (node_api cfg w c req) = c
   \<or> (\<exists>h v. truthy v \<and> final (node_api cfg w c req) = c @ [\<lparr>hash = h, work = v\<rparr>])"
proof (cases "get_prop (body req) ''action'' \<in> set allowedActions")
  case False
  then show ?thesis by (simp add: node_api_rejected)
next
  case True
  show ?thesis
  proof (cases "work_stage c req")
    case (Inl answered)
    then have "final answered = c"
      by (auto simp: work_stage_def Let_def split: if_splits)
    then show ?thesis
      unfolding node_api_accepted [OF True] Inl by simp
  next
    case (Inr p)
    obtain wr evs1 where p: "p = (wr, evs1)" by (cases p)
    show ?thesis
    proof (cases "representative_stage w c req")
      case (Inl answered)
      then have "final answered = c"
        by (auto simp: representative_stage_def Let_def split: if_splits)
      then show ?thesis
        unfolding node_api_accepted [OF True] Inr p Inl by (simp add: after_def)
    next
      case (Inr q)
      obtain rr evs2 where q: "q = (rr, evs2)" by (cases q)
      show ?thesis
        unfolding node_api_accepted [OF True] \<open>work_stage c req = Inr p\<close> p Inr q
        using send_to_node_final send_to_dpow_final
        by (simp add: after_def)
    qed
  qed
qed

lemma cache_after_extends:
  "\<exists>ys. cache_after cfg c reqs = c @ ys \<and> (all_truthy c \<longrightarrow> all_truthy (c @ ys))"
proof (induction reqs arbitrary: c)
  case Nil
  then show ?case by simp
next
  case (Cons p reqs)
  obtain w req where p: "p = (w, req)" by (cases p)
  obtain ys where ys: "cache_after cfg (final (node_api cfg w c req)) reqs
        = final (node_api cfg w c req) @ ys"
      "all_truthy (final (node_api cfg w c req)) \<longrightarrow>
         all_truthy (final (node_api cfg w c req) @ ys)"
    using Cons.IH by blast
  from node_api_final [of cfg w c req] show ?case
  proof
    assume "final (node_api cfg w c req) = c"
    then show ?thesis using ys p by auto
  next
    assume "\<exists>h v. truthy v \<and> final (node_api cfg w c req) = c @ [\<lparr>hash = h, work = v\<rparr>]"
    then obtain h v where hv: "truthy v"
        "final (node_api cfg w c req) = c @ [\<lparr>hash = h, work = v\<rparr>]"
      by blast
    have "cache_after cfg c (p # reqs) = c @ ([\<lparr>hash = h, work = v\<rparr>] @ ys)"
      using ys(1) hv(2) p by simp
    moreover have "all_truthy c \<longrightarrow> all_truthy (c @ ([\<lparr>hash = h, work = v\<rparr>] @ ys))"
      using ys(2) hv by (simp add: all_truthy_def)
    ultimately show ?thesis by blast
  qed
qed

text \<open>
  In every state the process reaches from its start, the works held are truthy; so a
  cached string is never empty there.
\<close>

lemma reached_all_truthy:
  "start cfg = Inr c \<Longrightarrow> all_truthy (cache_after cfg c reqs)"
proof -
  assume "start cfg = Inr c"
  then have "c = []" by (auto simp: start_def split: if_splits)
  then have "all_truthy c" by (simp add: all_truthy_def)
  then show ?thesis
    using cache_after_extends [of cfg c reqs] by auto
qed

lemma getCache_in_set:
  "getCache c h \<noteq> Null \<Longrightarrow> \<exists>e\<in>set c. work e = getCache c h"
proof -
  assume a: "getCache c h \<noteq> Null"
  then obtain e where e: "find (\<lambda>w. strict_eq (hash w) h) c = Some e"
    by (auto simp: getCache_def split: option.splits)
  then have "e \<in> set c" by (auto simp: find_Some_iff)
  then show ?thesis using e by (auto simp: getCache_def)
qed

lemma truthy_cached_string:
  "all_truthy c \<Longrightarrow> getCache c h = Str v \<Longrightarrow> v \<noteq> []"
proof -
  assume t: "all_truthy c" and g: "getCache c h = Str v"
  then obtain e where "e \<in> set c" "work e = Str v"
    using getCache_in_set [of c h] by auto
  then have "truthy (Str v)"
    using t by (auto simp: all_truthy_def list_all_iff)
  then show ?thesis by simp
qed

lemma recommended_representatives_final:
  "final (recommended_representatives w c) = c"
  by (simp add: recommended_representatives_def getRecommendedReps_def putCache_def
      time_given_def Let_def split: sum.splits)




text \<open>
  Claim C7. When the cache holds a work value, a string, for the hash of a work request
  without override, the handler answers \<^verbatim>\<open>{work: cachedValue}\<close> with status 200, makes
  no request to a node or to the proof-of-work service, and leaves the cache as it is;
  and so for every repetition of the request, whatever the world then is. The cache is
  one whose works are all truthy, as in every state the process reaches from its start
  (a work is stored only when it is truthy, lines 117 and 129), or else the cached
  string is not empty.
\<close>

theorem cached_work_served:
  assumes "get_prop (body req) ''action'' = Str ''work_generate''"
    and "\<not> nodeOverride_of req"
    and "truthy (get_prop (body req) ''hash'')"
    and "v \<noteq> [] \<or> all_truthy c"
    and "getCache c (get_prop (body req) ''hash'') = Str v"
  shows "serve cfg c (map (\<lambda>w. (w, req)) ws) =
           map (\<lambda>w. \<lparr>final = c, trace = [CacheGet (get_prop (body req) ''hash'')],
                      reply = Some (Response 200 (Obj [(''work'', Str v)]))\<rparr>) ws"
proof (induction ws)
  case Nil
  then show ?case by simp
next
  case (Cons w ws)
  have "v \<noteq> []"
    using assms(4,5) truthy_cached_string [of c "get_prop (body req) ''hash''" v] by blast
  then have h: "cache_hit (getCache c (get_prop (body req) ''hash''))"
    using assms(5) by (simp add: cache_hit_Str)
  have "node_api cfg w c req =
          \<lparr>final = c, trace = [CacheGet (get_prop (body req) ''hash'')],
           reply = Some (Response 200 (Obj [(''work'', Str v)]))\<rparr>"
    using work_hit_run [OF assms(1-3) h] assms(5) by simp
  then show ?case using Cons by (simp add: Let_def)
qed

theorem cached_work_served_witness:
  "get_prop (body ex_work_request) ''action'' = Str ''work_generate''
   \<and> \<not> nodeOverride_of ex_work_request
   \<and> truthy (get_prop (body ex_work_request) ''hash'')
   \<and> all_truthy ex_cached
   \<and> final (node_api ex_cfg ex_world ex_empty ex_work_request) = ex_cached
   \<and> getCache ex_cached (get_prop (body ex_work_request) ''hash'') = Str ''1234''
   \<and> serve ex_cfg ex_cached [(ex_world_down, ex_work_request), (ex_world_down, ex_work_request)] =
       [\<lparr>final = ex_cached, trace = [CacheGet (Str ''ABCD'')],
         reply = Some (Response 200 (Obj [(''work'', Str ''1234'')]))\<rparr>,
        \<lparr>final = ex_cached, trace = [CacheGet (Str ''ABCD'')],
         reply = Some (Response 200 (Obj [(''work'', Str ''1234'')]))\<rparr>]"
proof -
  have a: "get_prop (body ex_work_request) ''action'' = Str ''work_generate''"
    by (simp add: ex_work_request_def)
  have b: "\<not> nodeOverride_of ex_work_request"
    by (simp add: ex_work_request_def nodeOverride_of_def)
  have c: "truthy (get_prop (body ex_work_request) ''hash'')"
    by (simp add: ex_work_request_def)
  have d: "all_truthy ex_cached" by (simp add: all_truthy_def ex_cached_def)
  have d': "''1234'' \<noteq> [] \<or> all_truthy ex_cached" using d by simp
  have e: "getCache ex_cached (get_prop (body ex_work_request) ''hash'') = Str ''1234''"
    by (simp add: ex_work_request_def getCache_def ex_cached_def)
  have f: "final (node_api ex_cfg ex_world ex_empty ex_work_request) = ex_cached"
    by (simp add: run_defs ex_defs)
  have g: "serve ex_cfg ex_cached [(ex_world_down, ex_work_request), (ex_world_down, ex_work_request)] =
       [\<lparr>final = ex_cached, trace = [CacheGet (Str ''ABCD'')],
         reply = Some (Response 200 (Obj [(''work'', Str ''1234'')]))\<rparr>,
        \<lparr>final = ex_cached, trace = [CacheGet (Str ''ABCD'')],
         reply = Some (Response 200 (Obj [(''work'', Str ''1234'')]))\<rparr>]"
    using cached_work_served [OF a b c d' e, of ex_cfg "[ex_world_down, ex_world_down]"]
    by (simp add: ex_work_request_def)
  show ?thesis using a b c d e f g by blast
qed

text \<open>
  Claim C8. With the proof-of-work service enabled, a work request without override
  whose hash misses the cache makes exactly one request: a POST to the service with the
  user, the key, the hash and \<^verbatim>\<open>timeout: 10\<close>; none goes to the work node. When that
  request fails, the handler answers with status 500 and the error's text, having made
  the cache read and that one request only (no second attempt, no request to a node),
  and the cache is unchanged.
\<close>

theorem dpow_instead_of_work_node:
  assumes "useDPoW cfg"
    and "get_prop (body req) ''action'' = Str ''work_generate''"
    and "\<not> nodeOverride_of req"
    and "truthy (get_prop (body req) ''hash'')"
    and "\<not> cache_hit (getCache c (get_prop (body req) ''hash''))"
  shows "filter is_request (trace (node_api cfg w c req)) =
           [Request ''post'' (dpowUrl cfg)
              (Obj [(''user'', dpowUser cfg), (''api_key'', dpowKey cfg),
                    (''hash'', get_prop (body req) ''hash''), (''timeout'', Num ''10'')])]
    \<and> (\<forall>err. request w ''post'' (dpowUrl cfg) (dpow_body cfg (body req)) = Inl err \<longrightarrow>
          node_api cfg w c req =
            \<lparr>final = c,
             trace = [CacheGet (get_prop (body req) ''hash''),
                      Request ''post'' (dpowUrl cfg) (dpow_body cfg (body req))],
             reply = Some (Response 500 (Str err))\<rparr>)"
proof -
  have run: "node_api cfg w c req =
      after [CacheGet (get_prop (body req) ''hash'')] (send_to_dpow cfg w c (body req))"
    using work_miss_run [OF assms(2-5)] assms(1) by simp
  show ?thesis
    unfolding run
    by (simp add: send_to_dpow_def after_def dpow_body_def putCache_def
        split: sum.splits prod.splits)
qed

theorem dpow_instead_of_work_node_witness:
  "useDPoW ex_cfg_dpow
   \<and> get_prop (body ex_work_request) ''action'' = Str ''work_generate''
   \<and> \<not> nodeOverride_of ex_work_request
   \<and> truthy (get_prop (body ex_work_request) ''hash'')
   \<and> \<not> cache_hit (getCache ex_empty (get_prop (body ex_work_request) ''hash''))
   \<and> request ex_world_down ''post'' (dpowUrl ex_cfg_dpow) (dpow_body ex_cfg_dpow (body ex_work_request))
       = Inl ''RequestError: ECONNREFUSED''
   \<and> node_api ex_cfg_dpow ex_world_down ex_empty ex_work_request =
       \<lparr>final = ex_empty,
        trace = [CacheGet (Str ''ABCD''),
                 Request ''post'' ''https://dpow.example/service''
                   (Obj [(''user'', Str ''user''), (''api_key'', Str ''key''),
                         (''hash'', Str ''ABCD''), (''timeout'', Num ''10'')])],
        reply = Some (Response 500 (Str ''RequestError: ECONNREFUSED''))\<rparr>"
proof -
  have a: "useDPoW ex_cfg_dpow" by (simp add: ex_cfg_dpow_def)
  have b: "get_prop (body ex_work_request) ''action'' = Str ''work_generate''"
    by (simp add: ex_work_request_def)
  have c: "\<not> nodeOverride_of ex_work_request"
    by (simp add: ex_work_request_def nodeOverride_of_def)
  have d: "truthy (get_prop (body ex_work_request) ''hash'')"
    by (simp add: ex_work_request_def)
  have e: "\<not> cache_hit (getCache ex_empty (get_prop (body ex_work_request) ''hash''))"
    by (simp add: getCache_def ex_empty_def cache_hit_def)
  have f: "request ex_world_down ''post'' (dpowUrl ex_cfg_dpow)
             (dpow_body ex_cfg_dpow (body ex_work_request)) = Inl ''RequestError: ECONNREFUSED''"
    by (simp add: ex_world_down_def ex_world_def)
  show ?thesis
    using dpow_instead_of_work_node [OF a b c d e] a b c d e f
    by (simp add: ex_work_request_def ex_cfg_dpow_def ex_cfg_def dpow_body_def)
qed

lemma send_to_node_first:
  "take (Suc 0) (trace (send_to_node w c b wr rr no u)) = [Request ''post'' u b]"
  by (simp add: send_to_node_def Let_def split: sum.splits option.splits)

lemma send_to_dpow_first:
  "take (Suc 0) (trace (send_to_dpow cfg w c b)) = [Request ''post'' (dpowUrl cfg) (dpow_body cfg b)]"
  by (simp add: send_to_dpow_def split: sum.splits prod.splits)

lemma take_2_after:
  "take 2 (trace (after [k] out)) = k # take (Suc 0) (trace out)"
  by (cases "trace out") (simp_all add: after_def)

text \<open>
  Claim C10. When the value cached under the key of a request without override (the
  hash of a \<^verbatim>\<open>work_generate\<close> request, \<^verbatim>\<open>online-representatives\<close> for
  \<^verbatim>\<open>representatives_online\<close>) is the empty string, the hit test of lines 83 and 92
  fails, and the handler goes on after the cache read with the request to the
  proof-of-work service (a work request, with the service enabled) or to the work node.
\<close>

theorem blank_cached_value_is_miss:
  assumes "\<not> nodeOverride_of req"
    and "get_prop (body req) ''action'' = Str ''work_generate''
           \<and> truthy (get_prop (body req) ''hash'') \<and> key = get_prop (body req) ''hash''
         \<or> get_prop (body req) ''action'' = Str ''representatives_online'' \<and> key = repCacheKey"
    and "getCache c key = Str []"
  shows "\<not> cache_hit (getCache c key)
    \<and> take 2 (trace (node_api cfg w c req)) =
        [CacheGet key,
         if get_prop (body req) ''action'' = Str ''work_generate'' \<and> useDPoW cfg
         then Request ''post'' (dpowUrl cfg) (dpow_body cfg (body req))
         else Request ''post'' (nanoWorkNodeUrl cfg) (body req)]"
proof -
  have miss: "\<not> cache_hit (getCache c key)"
    using assms(3) by (simp add: cache_hit_def)
  from assms(2) show ?thesis
  proof
    assume wg: "get_prop (body req) ''action'' = Str ''work_generate''
           \<and> truthy (get_prop (body req) ''hash'') \<and> key = get_prop (body req) ''hash''"
    then have m: "\<not> cache_hit (getCache c (get_prop (body req) ''hash''))"
      using miss by simp
    have run: "node_api cfg w c req =
           after [CacheGet (get_prop (body req) ''hash'')]
             (if useDPoW cfg then send_to_dpow cfg w c (body req)
              else send_to_node w c (body req) True False False (nanoWorkNodeUrl cfg))"
      using wg work_miss_run [OF _ assms(1) _ m] by simp
    show ?thesis
      unfolding run using wg miss
      by (simp add: take_2_after send_to_node_first send_to_dpow_first)
  next
    assume ro: "get_prop (body req) ''action'' = Str ''representatives_online'' \<and> key = repCacheKey"
    then have m: "\<not> cache_hit (getCache c repCacheKey)"
      using miss by simp
    have run: "node_api cfg w c req =
           after [CacheGet repCacheKey]
             (send_to_node w c (body req) False True False (nanoWorkNodeUrl cfg))"
      using ro representatives_miss_run [OF _ assms(1) m] by simp
    show ?thesis
      unfolding run using ro miss
      by (simp add: take_2_after send_to_node_first)
  qed
qed

theorem blank_cached_value_is_miss_witness:
  "\<not> nodeOverride_of ex_work_request
   \<and> get_prop (body ex_work_request) ''action'' = Str ''work_generate''
   \<and> truthy (get_prop (body ex_work_request) ''hash'')
   \<and> getCache ex_blank_entry (Str ''ABCD'') = Str []
   \<and> take 2 (trace (node_api ex_cfg ex_world ex_blank_entry ex_work_request)) =
        [CacheGet (Str ''ABCD''),
         Request ''post'' ''http://work:7002''
           (Obj [(''action'', Str ''work_generate''), (''hash'', Str ''ABCD'')])]
   \<and> \<not> nodeOverride_of ex_representatives_request
   \<and> get_prop (body ex_representatives_request) ''action'' = Str ''representatives_online''
   \<and> getCache ex_blank_representatives repCacheKey = Str []
   \<and> take 2 (trace (node_api ex_cfg ex_world ex_blank_representatives
                      ex_representatives_request)) =
        [CacheGet (Str ''online-representatives''),
         Request ''post'' ''http://work:7002'' (Obj [(''action'', Str ''representatives_online'')])]"
proof -
  have a: "\<not> nodeOverride_of ex_work_request"
    by (simp add: ex_work_request_def nodeOverride_of_def)
  have b: "get_prop (body ex_work_request) ''action'' = Str ''work_generate''
           \<and> truthy (get_prop (body ex_work_request) ''hash'')
           \<and> Str ''ABCD'' = get_prop (body ex_work_request) ''hash''
         \<or> get_prop (body ex_work_request) ''action'' = Str ''representatives_online''
           \<and> Str ''ABCD'' = repCacheKey"
    by (simp add: ex_work_request_def)
  have c: "getCache ex_blank_entry (Str ''ABCD'') = Str []"
    by (simp add: getCache_def ex_blank_entry_def)
  have a': "\<not> nodeOverride_of ex_representatives_request"
    by (simp add: ex_representatives_request_def nodeOverride_of_def)
  have b': "get_prop (body ex_representatives_request) ''action'' = Str ''work_generate''
           \<and> truthy (get_prop (body ex_representatives_request) ''hash'')
           \<and> repCacheKey = get_prop (body ex_representatives_request) ''hash''
         \<or> get_prop (body ex_representatives_request) ''action'' = Str ''representatives_online''
           \<and> repCacheKey = repCacheKey"
    by (simp add: ex_representatives_request_def)
  have c': "getCache ex_blank_representatives repCacheKey = Str []"
    by (simp add: getCache_def ex_blank_representatives_def repCacheKey_def)
  have d: "get_prop (body ex_work_request) ''action'' = Str ''work_generate''
           \<and> truthy (get_prop (body ex_work_request) ''hash'')"
    by (simp add: ex_work_request_def)
  have d': "get_prop (body ex_representatives_request) ''action'' = Str ''representatives_online''"
    by (simp add: ex_representatives_request_def)
  have t: "take 2 (trace (node_api ex_cfg ex_world ex_blank_entry ex_work_request)) =
        [CacheGet (Str ''ABCD''),
         Request ''post'' ''http://work:7002''
           (Obj [(''action'', Str ''work_generate''), (''hash'', Str ''ABCD'')])]"
    using blank_cached_value_is_miss [OF a b c, of ex_cfg ex_world]
    by (simp add: ex_cfg_def ex_work_request_def)
  have t': "take 2 (trace (node_api ex_cfg ex_world ex_blank_representatives
                      ex_representatives_request)) =
        [CacheGet (Str ''online-representatives''),
         Request ''post'' ''http://work:7002'' (Obj [(''action'', Str ''representatives_online'')])]"
    using blank_cached_value_is_miss [OF a' b' c', of ex_cfg ex_world]
    by (simp add: ex_cfg_def ex_representatives_request_def repCacheKey_def)
  show ?thesis using a c a' c' d d' t t' by blast
qed

section \<open>The recommended representatives\<close>

text \<open>On a hit the handler sends the parsed value.\<close>

lemma recommended_hit:
  assumes "truthy (getCache c (Str ''recommended-reps''))"
    and "to_str (getCache c (Str ''recommended-reps'')) = Inr text"
    and "parse w text = Inr v"
  shows "recommended_representatives w c =
           \<lparr>final = c, trace = [CacheGet (Str ''recommended-reps'')], reply = Some (Response 200 v)\<rparr>"
  using assms by (simp add: recommended_representatives_def)

text \<open>
  Claim C2 fails on a miss. When the cache has no truthy value under
  \<^verbatim>\<open>recommended-reps\<close>, the handler runs the fetch-and-store routine (the request to the
  directory, then \<^verbatim>\<open>putCache\<close> with 45 minutes) and ends without sending a response:
  line 39 returns the fetched value to the framework instead of passing it to
  \<^verbatim>\<open>res.json\<close>, as line 37 does on a hit.
\<close>

theorem recommended_miss_sends_nothing:
  assumes "\<not> truthy (getCache c (Str ''recommended-reps''))"
  shows "reply (recommended_representatives w c) = None
    \<and> (\<forall>res. request w ''get'' ''https://mynano.ninja/api/accounts/verified'' Undefined = Inr res \<longrightarrow>
          trace (recommended_representatives w c) =
            [CacheGet (Str ''recommended-reps''),
             Request ''get'' ''https://mynano.ninja/api/accounts/verified'' Undefined,
             CachePut (Str ''recommended-reps'') (Str (stringify w res)) (Some 2700)])"
  using assms
  by (simp add: recommended_representatives_def getRecommendedReps_def
      split: sum.splits prod.splits)

theorem recommended_miss_sends_nothing_witness:
  "\<not> truthy (getCache ex_empty (Str ''recommended-reps''))
   \<and> request ex_world_accounts ''get'' ''https://mynano.ninja/api/accounts/verified'' Undefined
       = Inr (Arr [])
   \<and> recommended_representatives ex_world_accounts ex_empty =
       \<lparr>final = ex_empty,
        trace = [CacheGet (Str ''recommended-reps''),
                 Request ''get'' ''https://mynano.ninja/api/accounts/verified'' Undefined,
                 CachePut (Str ''recommended-reps'') (Str ''[]'') (Some 2700)],
        reply = None\<rparr>"
proof -
  have a: "\<not> truthy (getCache ex_empty (Str ''recommended-reps''))"
    by (simp add: getCache_def ex_empty_def)
  have b: "request ex_world_accounts ''get'' ''https://mynano.ninja/api/accounts/verified'' Undefined
       = Inr (Arr [])"
    by (simp add: ex_world_accounts_def)
  have c: "final (recommended_representatives ex_world_accounts ex_empty) = ex_empty"
    by (rule recommended_representatives_final)
  have d: "stringify ex_world_accounts (Arr []) = ''[]''"
    by (simp add: ex_world_accounts_def ex_world_def)
  show ?thesis
    using recommended_miss_sends_nothing [OF a, of ex_world_accounts] a b c d
    by (cases "recommended_representatives ex_world_accounts ex_empty") simp
qed


end
